theory Spec2Isabelle
  imports Complex_Main
begin

section \<open>The retry helper \<open>retryApiRequest\<close>\<close>

text \<open>
  The helper takes a request function, a number \<open>maxRetries\<close> and a base delay:
  \<^verbatim>\<open>
  let lastError: Error;
  for (let i = 0; i < maxRetries; i++) {
    try { return await requestFn(); }
    catch (error) {
      lastError = error as Error;
      if (i < maxRetries - 1) { await new Promise(r => setTimeout(r, delay * (i + 1))); }
    }
  }
  throw lastError!;
  \<close>
  The request function has effects, so it is a function on the state of the world it
  runs against: it rejects (\<open>Inl\<close>) or resolves (\<open>Inr\<close>) and leaves a new world.
  \<open>lastError\<close> is declared without an initialiser: until the first assignment its value
  is \<open>undefined\<close>.
\<close>

datatype 'e thrown = Undefined | Thrown 'e

record 'w trace =
  world :: 'w
  invocations :: nat
  sleeps :: "int list"

function retry_loop ::
  "('w \<Rightarrow> ('e + 'a) \<times> 'w) \<Rightarrow> int \<Rightarrow> int \<Rightarrow> int \<Rightarrow> 'e thrown \<Rightarrow> 'w trace
     \<Rightarrow> ('e thrown + 'a) \<times> 'w trace" where
  "retry_loop requestFn maxRetries delay i lastError t =
     (if i < maxRetries then
        (case requestFn (world t) of
           (Inr v, w) \<Rightarrow> (Inr v, t\<lparr>world := w, invocations := Suc (invocations t)\<rparr>)
         | (Inl e, w) \<Rightarrow>
             retry_loop requestFn maxRetries delay (i + 1) (Thrown e)
               (if i < maxRetries - 1
                then t\<lparr>world := w, invocations := Suc (invocations t),
                       sleeps := sleeps t @ [delay * (i + 1)]\<rparr>
                else t\<lparr>world := w, invocations := Suc (invocations t)\<rparr>))
      else (Inl lastError, t))"
  by pat_completeness auto
termination
  by (relation "measure (\<lambda>(requestFn, maxRetries, delay, i, lastError, t). nat (maxRetries - i))")
    auto

declare retry_loop.simps [simp del]

definition retryApiRequest ::
  "('w \<Rightarrow> ('e + 'a) \<times> 'w) \<Rightarrow> int \<Rightarrow> int \<Rightarrow> 'w \<Rightarrow> ('e thrown + 'a) \<times> 'w trace" where
  "retryApiRequest requestFn maxRetries delay w =
     retry_loop requestFn maxRetries delay 0 Undefined
       \<lparr>world = w, invocations = 0, sleeps = []\<rparr>"

text \<open>A request function that rejects with a timeout error on every call.\<close>

definition always_timeout :: "unit \<Rightarrow> (string + nat) \<times> unit" where
  "always_timeout w = (Inl ''timeout of 30000ms exceeded'', w)"

text \<open>The world after \<open>k\<close> calls of the request function.\<close>

primrec world_after :: "('w \<Rightarrow> ('e + 'a) \<times> 'w) \<Rightarrow> nat \<Rightarrow> 'w \<Rightarrow> 'w" where
  "world_after requestFn 0 w = w"
| "world_after requestFn (Suc k) w = world_after requestFn k (snd (requestFn w))"

lemma retry_loop_exit:
  "\<not> i < maxRetries \<Longrightarrow> retry_loop requestFn maxRetries delay i lastError t = (Inl lastError, t)"
  by (simp add: retry_loop.simps)

lemma retry_loop_reject:
  assumes "i < maxRetries" and "requestFn (world t) = (Inl e, w)"
  shows "retry_loop requestFn maxRetries delay i lastError t =
     retry_loop requestFn maxRetries delay (i + 1) (Thrown e)
       (if i < maxRetries - 1
        then t\<lparr>world := w, invocations := Suc (invocations t),
               sleeps := sleeps t @ [delay * (i + 1)]\<rparr>
        else t\<lparr>world := w, invocations := Suc (invocations t)\<rparr>)"
  using assms by (subst retry_loop.simps) simp

lemma rejects_obtain:
  assumes "\<And>u. isl (fst (requestFn u))"
  shows "requestFn u = (Inl (projl (fst (requestFn u))), snd (requestFn u))"
proof -
  have "isl (fst (requestFn u))" by (rule assms)
  then have "fst (requestFn u) = Inl (projl (fst (requestFn u)))" by simp
  then show ?thesis by (metis prod.collapse)
qed

lemma retry_loop_all_reject:
  assumes rej: "\<And>u. isl (fst (requestFn u))"
  shows "i < m \<Longrightarrow> nat (m - i) = Suc n \<Longrightarrow>
    retry_loop requestFn m d i l t =
      (Inl (Thrown (projl (fst (requestFn (world_after requestFn n (world t)))))),
       \<lparr>world = world_after requestFn (Suc n) (world t),
        invocations = invocations t + Suc n,
        sleeps = sleeps t @ map (\<lambda>j. d * (j + 1)) [i..m - 2]\<rparr>)"
proof (induction n arbitrary: i l t)
  case 0
  then have last: "i = m - 1" by simp
  have r: "requestFn (world t) = (Inl (projl (fst (requestFn (world t)))), snd (requestFn (world t)))"
    by (rule rejects_obtain [OF rej])
  show ?case
    using last
    by (subst retry_loop_reject [where requestFn = requestFn and t = t, OF _ r])
      (simp_all add: retry_loop_exit)
next
  case (Suc n)
  then have lt: "i < m - 1" and nx: "i + 1 < m" and len: "nat (m - (i + 1)) = Suc n"
    by simp_all
  have r: "requestFn (world t) = (Inl (projl (fst (requestFn (world t)))), snd (requestFn (world t)))"
    by (rule rejects_obtain [OF rej])
  have up: "[i..m - 2] = i # [i + 1..m - 2]"
    using lt by (simp add: upto_rec1)
  show ?case
    using lt
    apply (subst retry_loop_reject [where requestFn = requestFn and t = t, OF Suc.prems(1) r])
    apply (simp add: Suc.IH [OF nx len] up)
    done
qed

text \<open>
  C1 (as the code has it). With \<open>maxRetries = 3\<close>, a request function that rejects on every
  call is invoked exactly 3 times: \<open>maxRetries\<close> bounds the total number of attempts (the
  loop runs for \<open>i = 0, 1, 2\<close>, and the source logs "attempt i+1/maxRetries"). The helper
  sleeps \<open>delay\<close> and \<open>2 * delay\<close> between the attempts and then throws the error of the
  third, last invocation.
\<close>

theorem retry_three_attempts:
  assumes "\<And>u. isl (fst (requestFn u))"
  shows "retryApiRequest requestFn 3 d w =
    (Inl (Thrown (projl (fst (requestFn (world_after requestFn 2 w))))),
     \<lparr>world = world_after requestFn 3 w, invocations = 3, sleeps = [d, 2 * d]\<rparr>)"
proof -
  have up: "[0..1::int] = [0, 1]"
    by (simp add: upto_rec1)
  have "retry_loop requestFn 3 d 0 Undefined \<lparr>world = w, invocations = 0, sleeps = []\<rparr> =
      (Inl (Thrown (projl (fst (requestFn (world_after requestFn 2 w))))),
       \<lparr>world = world_after requestFn (Suc 2) w, invocations = 0 + Suc 2,
        sleeps = [] @ map (\<lambda>j. d * (j + 1)) [0..3 - 2]\<rparr>)"
    using retry_loop_all_reject [where requestFn = requestFn and i = 0 and m = 3 and n = 2
        and d = d and l = Undefined and t = "\<lparr>world = w, invocations = 0, sleeps = []\<rparr>",
        OF assms]
    by simp
  then show ?thesis
    by (simp add: retryApiRequest_def up numeral_3_eq_3 numeral_2_eq_2)
qed

theorem retry_three_attempts_witness:
  "(\<forall>u. isl (fst (always_timeout u))) \<and>
   retryApiRequest always_timeout 3 1000 () =
     (Inl (Thrown ''timeout of 30000ms exceeded''),
      \<lparr>world = (), invocations = 3, sleeps = [1000, 2000]\<rparr>)"
proof -
  have rej: "\<And>u. isl (fst (always_timeout u))"
    by (simp add: always_timeout_def)
  show ?thesis
    using rej retry_three_attempts [of always_timeout 1000 "()", OF rej]
    by (simp add: always_timeout_def)
qed

text \<open>
  C1, as it is written (4 invocations: one initial attempt plus 3 retries) fails for
  the request function that always times out: it is invoked 3 times, not 4.
\<close>

theorem retry_four_attempts_counterexample:
  "invocations (snd (retryApiRequest always_timeout 3 1000 ())) = 3 \<and>
   invocations (snd (retryApiRequest always_timeout 3 1000 ())) \<noteq> 4"
  by (simp add: retryApiRequest_def retry_loop.simps always_timeout_def)

text \<open>
  C10. With \<open>maxRetries = 0\<close> the loop body never runs: the request function is not
  invoked, nothing is awaited, and the helper throws the value of the unassigned
  \<open>lastError\<close>, which is \<open>undefined\<close> and not an error object.
\<close>

theorem retry_zero_never_invokes:
  "retryApiRequest requestFn 0 d w =
     (Inl Undefined, \<lparr>world = w, invocations = 0, sleeps = []\<rparr>)"
  by (simp add: retryApiRequest_def retry_loop_exit)

section \<open>The transport layer's response interceptor\<close>

text \<open>
  \<^verbatim>\<open>
  api.interceptors.response.use(
    (response) => response,
    async (error) => {
      if (error.code === 'ECONNABORTED' || error.message.includes('timeout')) {
        const originalRequest = error.config;
        if (originalRequest) {
          try {
            await new Promise(resolve => setTimeout(resolve, 3000));
            return api.request(originalRequest);
          } catch (retryError) { console.error('Retry failed:', retryError); }
        }
      }
      return Promise.reject(error);
    });
  \<close>
  The retried request is sent with \<open>api.request\<close>, through the same instance and so through
  the same interceptor. The adapter (the network) is a function of its own state: it
  answers a dispatched request with an error or a response. The timer promise never
  rejects and the promise returned by \<open>api.request\<close> is returned without being awaited,
  so the \<open>catch\<close> block is never entered. A request that times out again and again is
  never settled: \<open>api_request\<close> then has no value (\<open>None\<close>).
\<close>

fun startsWith :: "string \<Rightarrow> string \<Rightarrow> bool" where
  "startsWith s [] = True"
| "startsWith [] (c # cs) = False"
| "startsWith (x # xs) (c # cs) = (x = c \<and> startsWith xs cs)"

fun includes_str :: "string \<Rightarrow> string \<Rightarrow> bool" where
  "includes_str [] p = (p = [])"
| "includes_str (x # xs) p = (startsWith (x # xs) p \<or> includes_str xs p)"

record 'c AxiosError =
  code :: "string option"
  message :: string
  config :: "'c option"

record 'n net_trace =
  net :: 'n
  dispatched :: nat
  waits :: "int list"

definition is_timeout :: "'c AxiosError \<Rightarrow> bool" where
  "is_timeout error =
     (code error = Some ''ECONNABORTED'' \<or> includes_str (message error) ''timeout'')"

partial_function (option) api_request ::
  "('n \<Rightarrow> 'c \<Rightarrow> ('c AxiosError + 'r) \<times> 'n) \<Rightarrow> 'c \<Rightarrow> 'n net_trace
     \<Rightarrow> (('c AxiosError + 'r) \<times> 'n net_trace) option" where
  "api_request adapter cfg t =
     (case adapter (net t) cfg of
        (Inr response, n) \<Rightarrow>
          Some (Inr response, t\<lparr>net := n, dispatched := Suc (dispatched t)\<rparr>)
      | (Inl error, n) \<Rightarrow>
          (if is_timeout error then
             (case config error of
                Some originalRequest \<Rightarrow>
                  api_request adapter originalRequest
                    (t\<lparr>net := n, dispatched := Suc (dispatched t), waits := waits t @ [3000]\<rparr>)
              | None \<Rightarrow> Some (Inl error, t\<lparr>net := n, dispatched := Suc (dispatched t)\<rparr>))
           else Some (Inl error, t\<lparr>net := n, dispatched := Suc (dispatched t)\<rparr>)))"

text \<open>
  Concrete networks: the error axios raises when its 30 second timeout fires, a network
  whose first \<open>k\<close> answers are that timeout, and a network that never answers in time.
\<close>

definition timeoutError :: "'c \<Rightarrow> 'c AxiosError" where
  "timeoutError cfg =
     \<lparr>code = Some ''ECONNABORTED'', message = ''timeout of 30000ms exceeded'',
      config = Some cfg\<rparr>"

definition flaky :: "nat \<Rightarrow> nat \<Rightarrow> string \<Rightarrow> (string AxiosError + string) \<times> nat" where
  "flaky k n cfg = (if n < k then (Inl (timeoutError cfg), Suc n) else (Inr ''ok'', Suc n))"

definition never_answers :: "unit \<Rightarrow> string \<Rightarrow> (string AxiosError + string) \<times> unit" where
  "never_answers n cfg = (Inl (timeoutError cfg), n)"

definition idle :: "nat net_trace" where
  "idle = \<lparr>net = 0, dispatched = 0, waits = []\<rparr>"

lemma timeoutError_is_timeout: "is_timeout (timeoutError cfg)"
  by (simp add: is_timeout_def timeoutError_def)

text \<open>
  Every timed-out dispatch is followed by one more retry: against a network whose first
  \<open>k\<close> answers time out, the interceptor waits 3 seconds \<open>k\<close> times and dispatches
  \<open>k + 1\<close> requests for the one original request.
\<close>

lemma flaky_retries:
  "n \<le> k \<Longrightarrow> k - n = j \<Longrightarrow>
   api_request (flaky k) cfg \<lparr>net = n, dispatched = d, waits = ws\<rparr> =
     Some (Inr ''ok'', \<lparr>net = Suc k, dispatched = d + Suc j, waits = ws @ replicate j 3000\<rparr>)"
proof (induction j arbitrary: n d ws)
  case 0
  then show ?case
    by (subst api_request.simps) (simp add: flaky_def)
next
  case (Suc j)
  then have "n < k" "Suc n \<le> k" "k - Suc n = j"
    by simp_all
  then show ?case
    by (subst api_request.simps)
      (simp add: flaky_def timeoutError_def is_timeout_def Suc.IH replicate_append_same)
qed

text \<open>
  C7 (what the code does at the failing input). A request whose first two dispatches time
  out and whose third is answered: the interceptor issues two retries for the one original
  request, each after 3 seconds, where the claim allows at most one.
\<close>

theorem interceptor_retries_twice:
  "api_request (flaky 2) ''/api/v1/stock/AAPL/info'' idle =
     Some (Inr ''ok'', \<lparr>net = 3, dispatched = 3, waits = [3000, 3000]\<rparr>)"
  by (simp add: api_request.simps flaky_def idle_def timeoutError_def is_timeout_def)

text \<open>Against a network that never answers in time the request is never settled.\<close>

lemma never_settles_aux:
  assumes "api_request adapter cfg t = Some y"
  shows "adapter \<noteq> never_answers"
proof (rule api_request.raw_induct [where P = "\<lambda>a c t y. a \<noteq> never_answers", OF _ assms])
  fix f :: "(unit \<Rightarrow> string \<Rightarrow> (string AxiosError + string) \<times> unit) \<Rightarrow> string
      \<Rightarrow> unit net_trace \<Rightarrow> ((string AxiosError + string) \<times> unit net_trace) option"
  fix a c t y
  assume IH: "\<And>a c t y. f a c t = Some y \<Longrightarrow> a \<noteq> never_answers"
    and eq: "(case a (net t) c of
        (Inl error, n) \<Rightarrow>
          if is_timeout error
          then case config error of
               None \<Rightarrow> Some (Inl error, t\<lparr>net := n, dispatched := Suc (dispatched t)\<rparr>)
               | Some originalRequest \<Rightarrow>
                   f a originalRequest
                    (t\<lparr>net := n, dispatched := Suc (dispatched t), waits := waits t @ [3000]\<rparr>)
          else Some (Inl error, t\<lparr>net := n, dispatched := Suc (dispatched t)\<rparr>)
        | (Inr response, n) \<Rightarrow>
            Some (Inr response, t\<lparr>net := n, dispatched := Suc (dispatched t)\<rparr>)) = Some y"
  show "a \<noteq> never_answers"
  proof
    assume a: "a = never_answers"
    from eq have "f never_answers c
        (t\<lparr>net := (), dispatched := Suc (dispatched t), waits := waits t @ [3000]\<rparr>) = Some y"
      by (simp add: a never_answers_def timeoutError_def is_timeout_def)
    from IH [OF this] show False by simp
  qed
qed

lemma never_settles: "api_request never_answers cfg t = None"
proof (cases "api_request never_answers cfg t")
  case None
  then show ?thesis .
next
  case (Some y)
  from never_settles_aux [OF this] show ?thesis by simp
qed

section \<open>Values received from the backend\<close>

text \<open>
  The chart service and the chart hook are typed \<open>any\<close>: they probe a parsed JSON payload
  with truthiness tests, \<open>typeof\<close> and \<open>Array.isArray\<close>. The payload is therefore a
  value of the following type; \<open>JUndefined\<close> is what reading an absent property gives.
  An object is the list of its properties, each key occurring once. Only the type of a
  number is ever inspected, never its value.
\<close>

datatype json =
    JUndefined
  | JNull
  | JBool bool
  | JNum real
  | JStr string
  | JArr "json list"
  | JObj "(string \<times> json) list"

text \<open>What a \<open>catch\<close> receives: an instance of \<open>Error\<close> with its message, or another value.\<close>

datatype js_exn = ErrorObject string | NonError

fun truthy :: "json \<Rightarrow> bool" where
  "truthy JUndefined = False"
| "truthy JNull = False"
| "truthy (JBool b) = b"
| "truthy (JNum x) = (x \<noteq> 0)"
| "truthy (JStr s) = (s \<noteq> [])"
| "truthy (JArr xs) = True"
| "truthy (JObj kvs) = True"

fun nullish :: "json \<Rightarrow> bool" where
  "nullish JUndefined = True"
| "nullish JNull = True"
| "nullish v = False"

text \<open>
  \<open>get_prop v k\<close> is the property read \<open>v.k\<close> for the keys the source reads (\<open>success\<close>,
  \<open>data\<close>, \<open>symbol\<close>, \<open>timestamp\<close>, \<open>open\<close>, ...): none of them is a built-in property of
  a string, a number, a boolean or an array, so the read gives \<open>undefined\<close> on those. The
  source reads a property only behind a truthiness guard on the value read from, so the
  read itself never throws.
\<close>

fun get_prop :: "json \<Rightarrow> string \<Rightarrow> json" where
  "get_prop (JObj kvs) k = (case map_of kvs k of Some v \<Rightarrow> v | None \<Rightarrow> JUndefined)"
| "get_prop v k = JUndefined"

fun typeof :: "json \<Rightarrow> string" where
  "typeof JUndefined = ''undefined''"
| "typeof JNull = ''object''"
| "typeof (JBool b) = ''boolean''"
| "typeof (JNum x) = ''number''"
| "typeof (JStr s) = ''string''"
| "typeof (JArr xs) = ''object''"
| "typeof (JObj kvs) = ''object''"

fun isArray :: "json \<Rightarrow> bool" where
  "isArray (JArr xs) = True"
| "isArray v = False"

text \<open>
  \<open>Object.keys\<close> throws a \<open>TypeError\<close> on \<open>null\<close> and \<open>undefined\<close>; the source only logs
  the keys, so the model keeps whether the call throws.
\<close>

definition Object_keys :: "json \<Rightarrow> js_exn + unit" where
  "Object_keys v =
     (if nullish v then Inl (ErrorObject ''Cannot convert undefined or null to object'')
      else Inr ())"

section \<open>Point validation\<close>

text \<open>
  The callback of \<open>response.data.data.data.filter(...)\<close> in \<open>getStockChart\<close>, and again in
  the chart hook:
  \<^verbatim>\<open>
  const isValid = point &&
    typeof point.timestamp === 'string' && typeof point.open === 'number' &&
    typeof point.high === 'number' && typeof point.low === 'number' &&
    typeof point.close === 'number' && typeof point.volume === 'number';
  if (!isValid) { console.warn('Invalid data point:', point); }
  return isValid;
  \<close>
\<close>

definition isValid :: "json \<Rightarrow> bool" where
  "isValid point =
     (truthy point \<and>
      typeof (get_prop point ''timestamp'') = ''string'' \<and>
      typeof (get_prop point ''open'') = ''number'' \<and>
      typeof (get_prop point ''high'') = ''number'' \<and>
      typeof (get_prop point ''low'') = ''number'' \<and>
      typeof (get_prop point ''close'') = ''number'' \<and>
      typeof (get_prop point ''volume'') = ''number'')"

text \<open>
  The filter walks the array in order; the console is threaded through and receives one
  warning, the point itself, for every rejected point. The result is the pair of the
  array the filter returns and the console.
\<close>

primrec filter_points :: "json list \<Rightarrow> json list \<Rightarrow> json list \<times> json list" where
  "filter_points [] console = ([], console)"
| "filter_points (point # rest) console =
     (if isValid point
      then (case filter_points rest console of (validData, c) \<Rightarrow> (point # validData, c))
      else filter_points rest (console @ [point]))"

text \<open>The value the \<open>filter\<close> call evaluates to: a plain array.\<close>

definition filter_result :: "json list \<Rightarrow> json" where
  "filter_result pts = JArr (fst (filter_points pts []))"

text \<open>
  The per-point rule in the words of the specification, to compare the source's test
  with: all six fields present and of the declared type (\<open>timestamp\<close> a string, \<open>open\<close>,
  \<open>high\<close>, \<open>low\<close>, \<open>close\<close>, \<open>volume\<close> numbers).
\<close>

fun is_string :: "json option \<Rightarrow> bool" where
  "is_string (Some (JStr s)) = True"
| "is_string v = False"

fun is_number :: "json option \<Rightarrow> bool" where
  "is_number (Some (JNum x)) = True"
| "is_number v = False"

fun spec_TimeSeriesPoint_ok :: "json \<Rightarrow> bool" where
  "spec_TimeSeriesPoint_ok (JObj kvs) =
     (is_string (map_of kvs ''timestamp'') \<and> is_number (map_of kvs ''open'') \<and>
      is_number (map_of kvs ''high'') \<and> is_number (map_of kvs ''low'') \<and>
      is_number (map_of kvs ''close'') \<and> is_number (map_of kvs ''volume''))"
| "spec_TimeSeriesPoint_ok v = False"

text \<open>The two points of the specification's third scenario.\<close>

definition point1 :: json where
  "point1 = JObj [(''timestamp'', JStr ''t1''), (''open'', JNum 1), (''high'', JNum 2),
     (''low'', JNum 0.5), (''close'', JNum 1.5), (''volume'', JNum 100)]"

definition point2 :: json where
  "point2 = JObj [(''timestamp'', JStr ''t2''), (''open'', JStr ''bad''), (''high'', JNum 2),
     (''low'', JNum 0.5), (''close'', JNum 1.5), (''volume'', JNum 100)]"

lemma typeof_string: "typeof v = ''string'' \<longleftrightarrow> (\<exists>s. v = JStr s)"
  by (cases v) auto

lemma typeof_number: "typeof v = ''number'' \<longleftrightarrow> (\<exists>x. v = JNum x)"
  by (cases v) auto

lemma is_string_iff: "is_string v \<longleftrightarrow> (\<exists>s. v = Some (JStr s))"
  by (cases v rule: is_string.cases) auto

lemma is_number_iff: "is_number v \<longleftrightarrow> (\<exists>x. v = Some (JNum x))"
  by (cases v rule: is_number.cases) auto

text \<open>The source's test accepts exactly the points of the declared shape.\<close>

lemma isValid_eq_spec: "isValid p = spec_TimeSeriesPoint_ok p"
proof (cases p)
  case (JObj kvs)
  then show ?thesis
    by (auto simp: isValid_def typeof_string typeof_number is_string_iff is_number_iff
        split: option.splits)
qed (simp_all add: isValid_def)

lemma filter_points_eq:
  "filter_points pts console =
     (filter isValid pts, console @ filter (\<lambda>p. \<not> isValid p) pts)"
  by (induction pts arbitrary: console) simp_all

lemma filter_isValid_idem: "filter isValid (filter isValid pts) = filter isValid pts"
  by simp

text \<open>
  C5 (as the code has it). The filter returns, as a plain array, exactly the points of the
  raw array that have a string \<open>timestamp\<close> and numeric \<open>open\<close>, \<open>high\<close>, \<open>low\<close>,
  \<open>close\<close> and \<open>volume\<close>, in their order. It returns no count: every rejected point is
  written to the console as a warning, so the number of warnings, which is the number of
  rejected points, is the length of the input less the length of the output. For the
  two-point input of the third scenario it returns the first point alone, warns about the
  second and throws nothing.
\<close>

theorem filter_returns_valid_points:
  "fst (filter_points pts []) = filter spec_TimeSeriesPoint_ok pts \<and>
   snd (filter_points pts []) = filter (\<lambda>p. \<not> spec_TimeSeriesPoint_ok p) pts \<and>
   length (fst (filter_points pts [])) + length (snd (filter_points pts [])) = length pts \<and>
   filter_result pts = JArr (filter spec_TimeSeriesPoint_ok pts) \<and>
   filter_points [point1, point2] [] = ([point1], [point2])"
proof -
  have ok: "isValid = spec_TimeSeriesPoint_ok"
    by (rule ext) (rule isValid_eq_spec)
  have len: "length (filter spec_TimeSeriesPoint_ok pts) +
      length (filter (\<lambda>p. \<not> spec_TimeSeriesPoint_ok p) pts) = length pts"
    by (rule sum_length_filter_compl)
  have scen: "filter_points [point1, point2] [] = ([point1], [point2])"
    by (simp add: point1_def point2_def isValid_def)
  show ?thesis
    using len scen by (simp add: filter_points_eq filter_result_def ok)
qed

text \<open>
  C5, as it is written, has the filter return a \<open>droppedCount\<close> of 1 beside the valid
  points of the two-point input. The value the filter returns there is the array holding
  the first point: it has no \<open>droppedCount\<close> and no \<open>valid\<close> property.
\<close>

theorem filter_no_droppedCount_counterexample:
  "filter_result [point1, point2] = JArr [point1] \<and>
   get_prop (filter_result [point1, point2]) ''droppedCount'' = JUndefined \<and>
   get_prop (filter_result [point1, point2]) ''droppedCount'' \<noteq> JNum 1 \<and>
   get_prop (filter_result [point1, point2]) ''valid'' \<noteq> JArr [point1]"
  by (simp add: filter_result_def point1_def point2_def isValid_def)

text \<open>
  C8. Validation is idempotent: filtering the array that a first pass returned gives that
  same array back and writes no warning, whatever the console held; so a second pass (the
  re-validation in the chart hook) drops nothing.
\<close>

theorem filter_points_idempotent:
  "filter_points (fst (filter_points pts console)) console' =
     (fst (filter_points pts console), console') \<and>
   fst (filter_points (fst (filter_points pts console)) console') =
     fst (filter_points pts console')"
  by (simp add: filter_points_eq)

section \<open>The chart service \<open>getStockChart\<close> and the chart hook\<close>

text \<open>
  \<open>getStockChart\<close> awaits \<open>api.get\<close>, which rejects or resolves with a response whose
  \<open>data\<close> is the parsed payload \<open>d\<close>. It logs \<open>Object.keys(response.data)\<close>, then
  \<^verbatim>\<open>
  if (response.data && response.data.success && response.data.data) {
    if (response.data.data.data) {
      if (Array.isArray(response.data.data.data) && response.data.data.data.length > 0) {
        console.log('First data point keys:', Object.keys(response.data.data.data[0]));
        const validData = response.data.data.data.filter(...);
        const newResponse = { success: response.data.success,
          data: { symbol: ..., period: ..., interval: ..., data: validData },
          message: response.data.message, timestamp: response.data.timestamp };
        return newResponse;
      } } }
  return response.data;
  \<close>
  The result is what the promise settles with, and the warnings of the filter.
\<close>

definition newResponse :: "json \<Rightarrow> json list \<Rightarrow> json" where
  "newResponse d validData =
     JObj [(''success'', get_prop d ''success''),
           (''data'', JObj [(''symbol'', get_prop (get_prop d ''data'') ''symbol''),
                            (''period'', get_prop (get_prop d ''data'') ''period''),
                            (''interval'', get_prop (get_prop d ''data'') ''interval''),
                            (''data'', JArr validData)]),
           (''message'', get_prop d ''message''),
           (''timestamp'', get_prop d ''timestamp'')]"

definition getStockChart :: "js_exn + json \<Rightarrow> (js_exn + json) \<times> json list" where
  "getStockChart api_get =
     (case api_get of
        Inl e \<Rightarrow> (Inl e, [])
      | Inr d \<Rightarrow>
          (case Object_keys d of
             Inl e \<Rightarrow> (Inl e, [])
           | Inr _ \<Rightarrow>
               if truthy d \<and> truthy (get_prop d ''success'') \<and> truthy (get_prop d ''data'')
               then
                 if truthy (get_prop (get_prop d ''data'') ''data'')
                 then
                   (case get_prop (get_prop d ''data'') ''data'' of
                      JArr (first # rest) \<Rightarrow>
                        (case Object_keys first of
                           Inl e \<Rightarrow> (Inl e, [])
                         | Inr _ \<Rightarrow>
                             (case filter_points (first # rest) [] of
                                (validData, console) \<Rightarrow>
                                  (Inr (newResponse d validData), console)))
                    | _ \<Rightarrow> (Inr d, []))
                 else (Inr d, [])
               else (Inr d, [])))"

text \<open>
  The hook \<open>useStockChart\<close> keeps \<open>data\<close>, \<open>loading\<close> and \<open>error\<close>; its effect runs
  \<open>fetchChartData\<close>:
  \<^verbatim>\<open>
  if (!symbol) return;
  setLoading(true); setError(null);
  try {
    const response = await stockService.getStockChart(symbol, period, interval);
    if (response && response.success && response.data && response.data.data
        && Array.isArray(response.data.data)) {
      if (response.data.data.length === 0) { setData([]); return; }
      console.log(..., Object.keys(response.data.data[0]));
      const validData = response.data.data.filter(...);   // the same test again
      setData(validData);
    } else { setError('Invalid chart data structure'); }
  } catch (err) {
    setError(err instanceof Error ? err.message : 'Failed to fetch chart data');
  } finally { setLoading(false); }
  \<close>
  The model gives the state of the hook once the promise has settled. The test on the
  response is \<open>envelope_ok\<close>: JavaScript truthiness of \<open>success\<close> and of the nested \<open>data\<close>,
  and the inner \<open>data\<close> an array.
\<close>

record ChartHook =
  chart_data :: "json list"
  chart_loading :: bool
  chart_error :: "string option"

definition envelope_ok :: "json \<Rightarrow> bool" where
  "envelope_ok response =
     (truthy response \<and> truthy (get_prop response ''success'') \<and>
      truthy (get_prop response ''data'') \<and>
      truthy (get_prop (get_prop response ''data'') ''data'') \<and>
      isArray (get_prop (get_prop response ''data'') ''data''))"

definition err_message :: "js_exn \<Rightarrow> string" where
  "err_message err =
     (case err of ErrorObject m \<Rightarrow> m | NonError \<Rightarrow> ''Failed to fetch chart data'')"

definition fetchChartData :: "string \<Rightarrow> js_exn + json \<Rightarrow> ChartHook \<Rightarrow> ChartHook" where
  "fetchChartData symbol api_get st =
     (if symbol = [] then st
      else
        (case fst (getStockChart api_get) of
           Inl err \<Rightarrow> st\<lparr>chart_error := Some (err_message err), chart_loading := False\<rparr>
         | Inr response \<Rightarrow>
             if envelope_ok response then
               (case get_prop (get_prop response ''data'') ''data'' of
                  JArr (first # rest) \<Rightarrow>
                    (case Object_keys first of
                       Inl err \<Rightarrow>
                         st\<lparr>chart_error := Some (err_message err), chart_loading := False\<rparr>
                     | Inr _ \<Rightarrow>
                         st\<lparr>chart_data := fst (filter_points (first # rest) []),
                            chart_error := None, chart_loading := False\<rparr>)
                | _ \<Rightarrow> st\<lparr>chart_data := [], chart_error := None, chart_loading := False\<rparr>)
             else st\<lparr>chart_error := Some ''Invalid chart data structure'',
                     chart_loading := False\<rparr>))"

text \<open>Concrete payloads: a chart envelope around given points, and an error envelope.\<close>

definition chart_payload :: "json \<Rightarrow> json list \<Rightarrow> json" where
  "chart_payload success pts =
     JObj [(''success'', success),
           (''data'', JObj [(''symbol'', JStr ''AAPL''), (''period'', JStr ''1y''),
                            (''interval'', JStr ''1d''), (''data'', JArr pts)]),
           (''timestamp'', JStr ''2024-01-01T00:00:00Z'')]"

definition error_payload :: json where
  "error_payload =
     JObj [(''success'', JBool False),
           (''error'', JObj [(''code'', JStr ''NOT_FOUND''),
                             (''message'', JStr ''no such symbol'')]),
           (''timestamp'', JStr ''2024-01-01T00:00:00Z'')]"

definition showing_point1 :: ChartHook where
  "showing_point1 = \<lparr>chart_data = [point1], chart_loading = True, chart_error = None\<rparr>"

definition idle_hook :: ChartHook where
  "idle_hook = \<lparr>chart_data = [], chart_loading = True, chart_error = None\<rparr>"

text \<open>A chart envelope whose \<open>success\<close> is the string \<open>false\<close>, not a boolean.\<close>

definition accepted_payload :: json where
  "accepted_payload = chart_payload (JStr ''false'') [point1]"

lemma getStockChart_passthrough:
  "\<not> envelope_ok d \<Longrightarrow> \<not> nullish d \<Longrightarrow> getStockChart (Inr d) = (Inr d, [])"
  by (auto simp: getStockChart_def envelope_ok_def Object_keys_def
      split: json.splits list.splits sum.splits)

lemma truthy_prop_obj: "truthy (get_prop d k) \<Longrightarrow> truthy d \<and> \<not> nullish d"
  by (cases d) simp_all

lemma prop_arr_truthy: "get_prop d k = JArr xs \<Longrightarrow> truthy d \<and> \<not> nullish d"
  by (cases d) simp_all

text \<open>
  A payload that fails the test of the hook ends as an error of the hook: \<open>getStockChart\<close>
  hands it on as it is, or throws when the payload is \<open>null\<close>.
\<close>

lemma invalid_envelope_is_error:
  assumes "symbol \<noteq> []" and "\<not> envelope_ok d"
  shows "fetchChartData symbol (Inr d) st =
     st\<lparr>chart_error := Some (if nullish d then ''Cannot convert undefined or null to object''
                              else ''Invalid chart data structure''),
        chart_loading := False\<rparr>"
proof (cases "nullish d")
  case True
  then show ?thesis
    using assms(1)
    by (simp add: fetchChartData_def getStockChart_def Object_keys_def err_message_def)
next
  case False
  with assms show ?thesis
    by (simp add: fetchChartData_def getStockChart_passthrough)
qed

text \<open>The test of the hook, read off the payload.\<close>

lemma get_prop_truthy_iff:
  "truthy (get_prop d k) \<longleftrightarrow> (\<exists>kvs v. d = JObj kvs \<and> map_of kvs k = Some v \<and> truthy v)"
  by (cases d) (auto split: option.splits)

lemma get_prop_arr_iff:
  "isArray (get_prop d k) \<longleftrightarrow> (\<exists>kvs pts. d = JObj kvs \<and> map_of kvs k = Some (JArr pts))"
proof (cases d)
  case (JObj kvs)
  show ?thesis
  proof (cases "map_of kvs k")
    case None
    with JObj show ?thesis by simp
  next
    case (Some v)
    with JObj show ?thesis by (cases v) simp_all
  qed
qed simp_all

lemma envelope_ok_iff:
  "envelope_ok d \<longleftrightarrow>
     (\<exists>kvs s dkvs pts. d = JObj kvs \<and> map_of kvs ''success'' = Some s \<and> truthy s \<and>
        map_of kvs ''data'' = Some (JObj dkvs) \<and> map_of dkvs ''data'' = Some (JArr pts))"
  (is "?L = ?R")
proof
  assume ?L
  then have s: "truthy (get_prop d ''success'')" and a: "isArray (get_prop (get_prop d ''data'') ''data'')"
    by (simp_all add: envelope_ok_def)
  from s obtain kvs v where d: "d = JObj kvs" "map_of kvs ''success'' = Some v" "truthy v"
    by (auto simp: get_prop_truthy_iff)
  from a obtain dkvs pts where dd: "get_prop d ''data'' = JObj dkvs" "map_of dkvs ''data'' = Some (JArr pts)"
    by (auto simp: get_prop_arr_iff)
  from dd(1) d(1) have "map_of kvs ''data'' = Some (JObj dkvs)"
    by (auto split: option.splits)
  with d dd show ?R by blast
next
  assume ?R
  then show ?L by (auto simp: envelope_ok_def)
qed

lemma fetch_empty:
  assumes "symbol \<noteq> []" "envelope_ok d" "get_prop (get_prop d ''data'') ''data'' = JArr []"
  shows "fetchChartData symbol (Inr d) st = st\<lparr>chart_data := [], chart_error := None, chart_loading := False\<rparr>"
proof -
  have n: "\<not> nullish d" using assms(2) by (cases d) (simp_all add: envelope_ok_def)
  have "getStockChart (Inr d) = (Inr d, [])"
    using assms n by (simp add: getStockChart_def Object_keys_def envelope_ok_def)
  then show ?thesis using assms by (simp add: fetchChartData_def)
qed

lemma fetch_null_first:
  assumes "symbol \<noteq> []" "envelope_ok d" "get_prop (get_prop d ''data'') ''data'' = JArr (first # rest)" "nullish first"
  shows "fetchChartData symbol (Inr d) st = st\<lparr>chart_error := Some ''Cannot convert undefined or null to object'', chart_loading := False\<rparr>"
proof -
  have n: "\<not> nullish d" using assms(2) by (cases d) (simp_all add: envelope_ok_def)
  have "getStockChart (Inr d) = (Inl (ErrorObject ''Cannot convert undefined or null to object''), [])"
    using assms n by (simp add: getStockChart_def Object_keys_def envelope_ok_def)
  then show ?thesis using assms by (simp add: fetchChartData_def err_message_def)
qed

lemma isValid_not_nullish: "isValid p \<Longrightarrow> \<not> nullish p"
  by (cases p) (simp_all add: isValid_def)

lemma fetch_points:
  assumes "symbol \<noteq> []" "envelope_ok d" "get_prop (get_prop d ''data'') ''data'' = JArr (first # rest)" "\<not> nullish first"
  shows "fetchChartData symbol (Inr d) st =
    st\<lparr>chart_data := filter isValid (first # rest), chart_error := None, chart_loading := False\<rparr>"
proof -
  have n: "\<not> nullish d" using assms(2) by (cases d) (simp_all add: envelope_ok_def)
  have g: "getStockChart (Inr d) = (Inr (newResponse d (filter isValid (first # rest))), filter (\<lambda>p. \<not> isValid p) (first # rest))"
    using assms n by (simp add: getStockChart_def Object_keys_def envelope_ok_def filter_points_eq del: filter.simps)
  have e: "envelope_ok (newResponse d v)" for v
    using assms(2) by (simp add: envelope_ok_def newResponse_def)
  have i: "get_prop (get_prop (newResponse d v) ''data'') ''data'' = JArr v" for v
    by (simp add: newResponse_def)
  show ?thesis
  proof (cases "filter isValid (first # rest)")
    case Nil
    then show ?thesis using assms(1) g e i by (simp add: fetchChartData_def del: filter.simps)
  next
    case (Cons p ps)
    have "p \<in> set (p # ps)" by simp
    then have "p \<in> set (filter isValid (first # rest))" by (simp only: Cons)
    then have "isValid p" by (simp only: set_filter mem_Collect_eq)
    then have np: "\<not> nullish p" by (rule isValid_not_nullish)
    have idem: "filter isValid (p # ps) = p # ps"
      using Cons filter_isValid_idem [of "first # rest"] by simp
    show ?thesis using assms(1) g e i Cons np idem
      by (simp add: fetchChartData_def Object_keys_def filter_points_eq del: filter.simps)
  qed
qed

text \<open>
  C6 (as the code has it). The shape test is JavaScript truthiness. A payload that is not
  an object, or whose \<open>success\<close> is falsy (\<open>false\<close>, \<open>0\<close>, the empty string, \<open>null\<close> or
  absent), or whose \<open>data\<close> is not an object, or whose inner \<open>data\<close> is absent or not an
  array, ends as an error of the hook: \<open>error\<close> is set, \<open>data\<close> stays as it was and
  loading stops. A payload that is an object with a truthy \<open>success\<close>, an object as \<open>data\<close>
  and an array as the inner \<open>data\<close> that is empty or starts with a point other than
  \<open>null\<close> is a success: \<open>data\<close> becomes the well-typed points and \<open>error\<close> is cleared, also
  when \<open>success\<close> is a truthy value other than \<open>true\<close>.
\<close>

theorem bad_shape_is_error:
  assumes "symbol \<noteq> []"
  shows "(\<not> (\<exists>kvs s dkvs pts. d = JObj kvs \<and> map_of kvs ''success'' = Some s \<and> truthy s \<and>
              map_of kvs ''data'' = Some (JObj dkvs) \<and> map_of dkvs ''data'' = Some (JArr pts)) \<longrightarrow>
          chart_error (fetchChartData symbol (Inr d) st) \<noteq> None \<and>
          chart_data (fetchChartData symbol (Inr d) st) = chart_data st \<and>
          \<not> chart_loading (fetchChartData symbol (Inr d) st)) \<and>
         (\<forall>kvs s dkvs pts. d = JObj kvs \<and> map_of kvs ''success'' = Some s \<and> truthy s \<and>
              map_of kvs ''data'' = Some (JObj dkvs) \<and> map_of dkvs ''data'' = Some (JArr pts) \<and>
              (case pts of [] \<Rightarrow> True | first # rest \<Rightarrow> \<not> nullish first) \<longrightarrow>
          fetchChartData symbol (Inr d) st =
            st\<lparr>chart_data := filter spec_TimeSeriesPoint_ok pts, chart_error := None,
               chart_loading := False\<rparr>)"
proof (intro conjI impI allI)
  assume "\<not> (\<exists>kvs s dkvs pts. d = JObj kvs \<and> map_of kvs ''success'' = Some s \<and> truthy s \<and>
              map_of kvs ''data'' = Some (JObj dkvs) \<and> map_of dkvs ''data'' = Some (JArr pts))"
  then have bad: "\<not> envelope_ok d"
    by (simp add: envelope_ok_iff)
  show "chart_error (fetchChartData symbol (Inr d) st) \<noteq> None"
    and "chart_data (fetchChartData symbol (Inr d) st) = chart_data st"
    and "\<not> chart_loading (fetchChartData symbol (Inr d) st)"
    by (simp_all add: invalid_envelope_is_error [OF assms bad])
next
  fix kvs s dkvs pts
  assume a: "d = JObj kvs \<and> map_of kvs ''success'' = Some s \<and> truthy s \<and>
      map_of kvs ''data'' = Some (JObj dkvs) \<and> map_of dkvs ''data'' = Some (JArr pts) \<and>
      (case pts of [] \<Rightarrow> True | first # rest \<Rightarrow> \<not> nullish first)"
  then have ok: "envelope_ok d"
    by (auto simp: envelope_ok_iff)
  from a have inner: "get_prop (get_prop d ''data'') ''data'' = JArr pts"
    by simp
  have spec: "isValid = spec_TimeSeriesPoint_ok"
    by (rule ext) (rule isValid_eq_spec)
  show "fetchChartData symbol (Inr d) st =
      st\<lparr>chart_data := filter spec_TimeSeriesPoint_ok pts, chart_error := None,
         chart_loading := False\<rparr>"
  proof (cases pts)
    case Nil
    with fetch_empty [OF assms ok, of st] inner show ?thesis by simp
  next
    case (Cons first rest)
    with a have "\<not> nullish first" by simp
    from fetch_points [OF assms ok, of first rest st] inner Cons this show ?thesis
      by (simp add: spec del: filter.simps)
  qed
qed

theorem bad_shape_is_error_witness:
  "''AAPL'' \<noteq> [] \<and>
   chart_error (fetchChartData ''AAPL'' (Inr error_payload) showing_point1) \<noteq> None \<and>
   chart_data (fetchChartData ''AAPL'' (Inr error_payload) showing_point1) = [point1] \<and>
   \<not> chart_loading (fetchChartData ''AAPL'' (Inr error_payload) showing_point1) \<and>
   fetchChartData ''AAPL'' (Inr (chart_payload (JBool True) [point1, point2])) idle_hook =
     \<lparr>chart_data = [point1], chart_loading = False, chart_error = None\<rparr>"
proof -
  have a: "''AAPL'' \<noteq> []" by simp
  have b: "\<not> (\<exists>kvs s dkvs pts. error_payload = JObj kvs \<and> map_of kvs ''success'' = Some s \<and>
      truthy s \<and> map_of kvs ''data'' = Some (JObj dkvs) \<and> map_of dkvs ''data'' = Some (JArr pts))"
    by (auto simp: error_payload_def)
  have c: "chart_payload (JBool True) [point1, point2] =
        JObj [(''success'', JBool True),
           (''data'', JObj [(''symbol'', JStr ''AAPL''), (''period'', JStr ''1y''),
                            (''interval'', JStr ''1d''), (''data'', JArr [point1, point2])]),
           (''timestamp'', JStr ''2024-01-01T00:00:00Z'')] \<and>
      map_of [(''success'', JBool True),
           (''data'', JObj [(''symbol'', JStr ''AAPL''), (''period'', JStr ''1y''),
                            (''interval'', JStr ''1d''), (''data'', JArr [point1, point2])]),
           (''timestamp'', JStr ''2024-01-01T00:00:00Z'')] ''success'' = Some (JBool True) \<and>
      truthy (JBool True) \<and>
      map_of [(''success'', JBool True),
           (''data'', JObj [(''symbol'', JStr ''AAPL''), (''period'', JStr ''1y''),
                            (''interval'', JStr ''1d''), (''data'', JArr [point1, point2])]),
           (''timestamp'', JStr ''2024-01-01T00:00:00Z'')] ''data'' =
        Some (JObj [(''symbol'', JStr ''AAPL''), (''period'', JStr ''1y''),
                            (''interval'', JStr ''1d''), (''data'', JArr [point1, point2])]) \<and>
      map_of [(''symbol'', JStr ''AAPL''), (''period'', JStr ''1y''),
                            (''interval'', JStr ''1d''), (''data'', JArr [point1, point2])] ''data'' =
        Some (JArr [point1, point2]) \<and>
      (case [point1, point2] of [] \<Rightarrow> True | first # rest \<Rightarrow> \<not> nullish first)"
    by (simp add: chart_payload_def point1_def)
  have p: "spec_TimeSeriesPoint_ok point1" "\<not> spec_TimeSeriesPoint_ok point2"
    by (simp_all add: point1_def point2_def)
  note t1 = bad_shape_is_error [OF a, of error_payload showing_point1, THEN conjunct1, rule_format, OF b]
  note t2 = bad_shape_is_error [OF a, of "chart_payload (JBool True) [point1, point2]" idle_hook,
      THEN conjunct2, rule_format, OF c]
  show ?thesis
    using a t1 t2 p by (simp add: showing_point1_def idle_hook_def)
qed

text \<open>
  C6, as it is written, makes a payload whose \<open>success\<close> is not \<open>true\<close> an error. The
  envelope whose \<open>success\<close> is the string \<open>false\<close> is taken as a success: its point
  reaches \<open>data\<close> and no error is set.
\<close>

theorem truthy_success_is_accepted_counterexample:
  "get_prop accepted_payload ''success'' = JStr ''false'' \<and>
   get_prop accepted_payload ''success'' \<noteq> JBool True \<and>
   fetchChartData ''AAPL'' (Inr accepted_payload) idle_hook =
     \<lparr>chart_data = [point1], chart_loading = False, chart_error = None\<rparr>"
  by (simp add: accepted_payload_def idle_hook_def chart_payload_def fetchChartData_def getStockChart_def
    Object_keys_def envelope_ok_def newResponse_def point1_def isValid_def)

text \<open>
  What \<open>getStockChart\<close> returns, as a value: behind a truthy \<open>success\<close>, a non-empty inner
  array and a first element other than \<open>null\<close>, the rebuilt envelope; with a falsy
  \<open>success\<close> the raw response, its inner array unfiltered; and with \<open>null\<close> as the first
  element the logging call \<open>Object.keys(response.data.data.data[0])\<close> throws, although the
  filter itself would have skipped a \<open>null\<close> point.
\<close>

lemma getStockChart_new_envelope:
  assumes "truthy (get_prop d ''success'')"
    and "get_prop (get_prop d ''data'') ''data'' = JArr (first # rest)"
    and "\<not> nullish first"
  shows "(let validData = filter spec_TimeSeriesPoint_ok (first # rest);
              r = newResponse d validData
          in getStockChart (Inr d) =
               (Inr r, filter (\<lambda>p. \<not> spec_TimeSeriesPoint_ok p) (first # rest)) \<and>
             get_prop r ''success'' = get_prop d ''success'' \<and>
             get_prop r ''message'' = get_prop d ''message'' \<and>
             get_prop r ''timestamp'' = get_prop d ''timestamp'' \<and>
             get_prop (get_prop r ''data'') ''symbol'' = get_prop (get_prop d ''data'') ''symbol'' \<and>
             get_prop (get_prop r ''data'') ''period'' = get_prop (get_prop d ''data'') ''period'' \<and>
             get_prop (get_prop r ''data'') ''interval'' =
               get_prop (get_prop d ''data'') ''interval'' \<and>
             get_prop (get_prop r ''data'') ''data'' = JArr validData)"
proof -
  have ok: "isValid = spec_TimeSeriesPoint_ok"
    by (rule ext) (rule isValid_eq_spec)
  have d: "truthy d" "\<not> nullish d"
    using truthy_prop_obj [OF assms(1)] by simp_all
  have dd: "truthy (get_prop d ''data'')"
    using prop_arr_truthy [OF assms(2)] by simp
  have "getStockChart (Inr d) =
      (Inr (newResponse d (filter spec_TimeSeriesPoint_ok (first # rest))),
       filter (\<lambda>p. \<not> spec_TimeSeriesPoint_ok p) (first # rest))"
    using assms d dd
    by (simp add: getStockChart_def Object_keys_def filter_points_eq ok del: filter.simps)
  then show ?thesis
    by (simp add: newResponse_def Let_def)
qed

lemma getStockChart_passes_failed_response:
  "getStockChart (Inr (chart_payload (JBool False) [point2])) =
     (Inr (chart_payload (JBool False) [point2]), []) \<and>
   get_prop (get_prop (chart_payload (JBool False) [point2]) ''data'') ''data'' = JArr [point2] \<and>
   \<not> spec_TimeSeriesPoint_ok point2 \<and>
   fst (getStockChart (Inr (chart_payload (JBool True) [JNull, point1]))) =
     Inl (ErrorObject ''Cannot convert undefined or null to object'')"
  by (simp add: getStockChart_def chart_payload_def Object_keys_def point2_def)

section \<open>The chart service on a store of objects\<close>

text \<open>
  Whether \<open>getStockChart\<close> changes the response it received, and whether what it returns
  is a new object, is a matter of object identity. Here the objects and arrays live in a
  store and a value is a primitive or a reference into the store: the address of an object
  is its index, and creating an object appends it. Reading a property of a reference that
  points at an array, or outside the store, gives \<open>undefined\<close>, as for the keys the source
  reads.
\<close>

datatype val = VUndefined | VNull | VBool bool | VNum real | VStr string | VRef nat

datatype obj = Obj "(string \<times> val) list" | Arr "val list"

type_synonym store = "obj list"

fun truthy_v :: "val \<Rightarrow> bool" where
  "truthy_v VUndefined = False"
| "truthy_v VNull = False"
| "truthy_v (VBool b) = b"
| "truthy_v (VNum x) = (x \<noteq> 0)"
| "truthy_v (VStr s) = (s \<noteq> [])"
| "truthy_v (VRef a) = True"

fun nullish_v :: "val \<Rightarrow> bool" where
  "nullish_v VUndefined = True"
| "nullish_v VNull = True"
| "nullish_v v = False"

fun typeof_v :: "val \<Rightarrow> string" where
  "typeof_v VUndefined = ''undefined''"
| "typeof_v VNull = ''object''"
| "typeof_v (VBool b) = ''boolean''"
| "typeof_v (VNum x) = ''number''"
| "typeof_v (VStr s) = ''string''"
| "typeof_v (VRef a) = ''object''"

fun read_prop :: "store \<Rightarrow> val \<Rightarrow> string \<Rightarrow> val" where
  "read_prop st (VRef a) k =
     (if a < length st
      then (case st ! a of
              Obj kvs \<Rightarrow> (case map_of kvs k of Some v \<Rightarrow> v | None \<Rightarrow> VUndefined)
            | Arr xs \<Rightarrow> VUndefined)
      else VUndefined)"
| "read_prop st v k = VUndefined"

fun elements :: "store \<Rightarrow> val \<Rightarrow> val list option" where
  "elements st (VRef a) =
     (if a < length st then (case st ! a of Arr xs \<Rightarrow> Some xs | Obj kvs \<Rightarrow> None) else None)"
| "elements st v = None"

definition keys_v :: "val \<Rightarrow> js_exn + unit" where
  "keys_v v =
     (if nullish_v v then Inl (ErrorObject ''Cannot convert undefined or null to object'')
      else Inr ())"

definition isValid_v :: "store \<Rightarrow> val \<Rightarrow> bool" where
  "isValid_v st point =
     (truthy_v point \<and>
      typeof_v (read_prop st point ''timestamp'') = ''string'' \<and>
      typeof_v (read_prop st point ''open'') = ''number'' \<and>
      typeof_v (read_prop st point ''high'') = ''number'' \<and>
      typeof_v (read_prop st point ''low'') = ''number'' \<and>
      typeof_v (read_prop st point ''close'') = ''number'' \<and>
      typeof_v (read_prop st point ''volume'') = ''number'')"

primrec filter_vals :: "store \<Rightarrow> val list \<Rightarrow> val list \<Rightarrow> val list \<times> val list" where
  "filter_vals st [] console = ([], console)"
| "filter_vals st (point # rest) console =
     (if isValid_v st point
      then (case filter_vals st rest console of (validData, c) \<Rightarrow> (point # validData, c))
      else filter_vals st rest (console @ [point]))"

text \<open>
  The same function as \<open>getStockChart\<close> above, on the store. \<open>filter\<close> creates the array
  \<open>validData\<close>, the object literal creates the envelope and then its \<open>data\<close> object; the
  points themselves are not copied, the new array refers to them. The result is what the
  promise settles with, the warnings, and the store afterwards.
\<close>

definition getStockChart_store ::
  "store \<Rightarrow> js_exn + val \<Rightarrow> (js_exn + val) \<times> val list \<times> store" where
  "getStockChart_store st api_get =
     (case api_get of
        Inl e \<Rightarrow> (Inl e, [], st)
      | Inr d \<Rightarrow>
          (case keys_v d of
             Inl e \<Rightarrow> (Inl e, [], st)
           | Inr _ \<Rightarrow>
               if truthy_v d \<and> truthy_v (read_prop st d ''success'') \<and>
                  truthy_v (read_prop st d ''data'')
               then
                 if truthy_v (read_prop st (read_prop st d ''data'') ''data'')
                 then
                   (case elements st (read_prop st (read_prop st d ''data'') ''data'') of
                      Some (first # rest) \<Rightarrow>
                        (case keys_v first of
                           Inl e \<Rightarrow> (Inl e, [], st)
                         | Inr _ \<Rightarrow>
                             (case filter_vals st (first # rest) [] of
                                (validData, console) \<Rightarrow>
                                  (Inr (VRef (length st + 1)), console,
                                   st @ [Arr validData,
                                         Obj [(''success'', read_prop st d ''success''),
                                              (''data'', VRef (length st + 2)),
                                              (''message'', read_prop st d ''message''),
                                              (''timestamp'', read_prop st d ''timestamp'')],
                                         Obj [(''symbol'', read_prop st (read_prop st d ''data'') ''symbol''),
                                              (''period'', read_prop st (read_prop st d ''data'') ''period''),
                                              (''interval'', read_prop st (read_prop st d ''data'') ''interval''),
                                              (''data'', VRef (length st))]])))
                    | _ \<Rightarrow> (Inr d, [], st))
                 else (Inr d, [], st)
               else (Inr d, [], st)))"

definition point_fields :: "val \<Rightarrow> obj" where
  "point_fields open_value =
     Obj [(''timestamp'', VStr ''t1''), (''open'', open_value), (''high'', VNum 2),
          (''low'', VNum 0.5), (''close'', VNum 1.5), (''volume'', VNum 100)]"

definition chart_store :: "val \<Rightarrow> store" where
  "chart_store success =
     [Obj [(''success'', success), (''data'', VRef 1),
           (''timestamp'', VStr ''2024-01-01T00:00:00Z'')],
      Obj [(''symbol'', VStr ''AAPL''), (''period'', VStr ''1y''), (''interval'', VStr ''1d''),
           (''data'', VRef 2)],
      Arr [VRef 3, VRef 4],
      point_fields (VNum 1),
      point_fields (VStr ''bad'')]"

text \<open>
  Reading a value back from the store as a tree, to a given depth, and the stores in which
  every reference points at an object of the store.
\<close>

fun reify :: "nat \<Rightarrow> store \<Rightarrow> val \<Rightarrow> json" where
  "reify n st VUndefined = JUndefined"
| "reify n st VNull = JNull"
| "reify n st (VBool b) = JBool b"
| "reify n st (VNum x) = JNum x"
| "reify n st (VStr s) = JStr s"
| "reify 0 st (VRef a) = JUndefined"
| "reify (Suc n) st (VRef a) =
     (if a < length st
      then (case st ! a of
              Obj kvs \<Rightarrow> JObj (map (\<lambda>(k, v). (k, reify n st v)) kvs)
            | Arr xs \<Rightarrow> JArr (map (reify n st) xs))
      else JUndefined)"

fun ref_ok :: "store \<Rightarrow> val \<Rightarrow> bool" where
  "ref_ok st (VRef a) = (a < length st)"
| "ref_ok st v = True"

fun obj_ok :: "store \<Rightarrow> obj \<Rightarrow> bool" where
  "obj_ok st (Obj kvs) = list_all (\<lambda>kv. ref_ok st (snd kv)) kvs"
| "obj_ok st (Arr xs) = list_all (ref_ok st) xs"

definition wf_store :: "store \<Rightarrow> bool" where
  "wf_store st = list_all (obj_ok st) st"

lemma filter_vals_eq:
  "filter_vals st pts console =
     (filter (isValid_v st) pts, console @ filter (\<lambda>p. \<not> isValid_v st p) pts)"
  by (induction pts arbitrary: console) simp_all

lemma truthy_read_ref: "truthy_v (read_prop st d k) \<Longrightarrow> \<exists>a. d = VRef a \<and> a < length st"
  by (cases d) (simp_all split: if_splits)

lemma elements_ref: "elements st v = Some xs \<Longrightarrow> \<exists>a. v = VRef a \<and> a < length st \<and> st ! a = Arr xs"
  by (cases v) (auto split: if_splits obj.splits)

lemma read_ref_ref: "read_prop st d k = VRef b \<Longrightarrow> \<exists>a. d = VRef a \<and> a < length st"
  by (cases d) (simp_all split: if_splits)

lemma read_prop_append:
  "read_prop st d k \<noteq> VUndefined \<Longrightarrow> read_prop (st @ new) d k = read_prop st d k"
  by (cases d) (simp_all add: nth_append split: if_splits)

text \<open>
  C9 (as the code has it). When \<open>success\<close> of the raw response is truthy, its inner \<open>data\<close>
  is a non-empty array and the first element of that array is neither \<open>null\<close> nor
  \<open>undefined\<close>, \<open>getStockChart\<close> changes no object that existed before the call, the
  received response and its array among them: the store afterwards is the store before
  with three objects appended. It returns a reference to one of the three, so not the
  received response: an envelope whose \<open>success\<close>, \<open>message\<close>, \<open>timestamp\<close> and
  \<open>data.symbol\<close>, \<open>data.period\<close>, \<open>data.interval\<close> are those of the raw response and
  whose \<open>data.data\<close> is a new array, not the raw one, holding in order the raw points
  that pass the per-point test.
\<close>

theorem getStockChart_store_fresh_envelope:
  assumes "truthy_v (read_prop st d ''success'')"
    and "elements st (read_prop st (read_prop st d ''data'') ''data'') = Some (first # rest)"
    and "\<not> nullish_v first"
  shows "(case getStockChart_store st (Inr d) of
      (result, console, st') \<Rightarrow>
        result = Inr (VRef (length st + 1)) \<and>
        take (length st) st' = st \<and>
        length st' = length st + 3 \<and>
        result \<noteq> Inr d \<and>
        read_prop st' (VRef (length st + 1)) ''success'' = read_prop st d ''success'' \<and>
        read_prop st' (VRef (length st + 1)) ''message'' = read_prop st d ''message'' \<and>
        read_prop st' (VRef (length st + 1)) ''timestamp'' = read_prop st d ''timestamp'' \<and>
        read_prop st' (read_prop st' (VRef (length st + 1)) ''data'') ''symbol'' =
          read_prop st (read_prop st d ''data'') ''symbol'' \<and>
        read_prop st' (read_prop st' (VRef (length st + 1)) ''data'') ''period'' =
          read_prop st (read_prop st d ''data'') ''period'' \<and>
        read_prop st' (read_prop st' (VRef (length st + 1)) ''data'') ''interval'' =
          read_prop st (read_prop st d ''data'') ''interval'' \<and>
        read_prop st' (read_prop st' (VRef (length st + 1)) ''data'') ''data'' = VRef (length st) \<and>
        VRef (length st) \<noteq> read_prop st (read_prop st d ''data'') ''data'' \<and>
        elements st' (VRef (length st)) = Some (filter (isValid_v st) (first # rest)) \<and>
        console = filter (\<lambda>p. \<not> isValid_v st p) (first # rest))"
proof -
  from truthy_read_ref [OF assms(1)] obtain a where d: "d = VRef a" "a < length st" by blast
  from elements_ref [OF assms(2)] obtain b where
    arr: "read_prop st (read_prop st d ''data'') ''data'' = VRef b" "b < length st" by blast
  from read_ref_ref [OF arr(1)] obtain c where dd: "read_prop st d ''data'' = VRef c" by blast
  have g: "getStockChart_store st (Inr d) =
      (Inr (VRef (length st + 1)), filter (\<lambda>p. \<not> isValid_v st p) (first # rest),
       st @ [Arr (filter (isValid_v st) (first # rest)),
             Obj [(''success'', read_prop st d ''success''),
                  (''data'', VRef (length st + 2)),
                  (''message'', read_prop st d ''message''),
                  (''timestamp'', read_prop st d ''timestamp'')],
             Obj [(''symbol'', read_prop st (read_prop st d ''data'') ''symbol''),
                  (''period'', read_prop st (read_prop st d ''data'') ''period''),
                  (''interval'', read_prop st (read_prop st d ''data'') ''interval''),
                  (''data'', VRef (length st))]])"
    using assms d dd arr
    by (simp add: getStockChart_store_def keys_v_def filter_vals_eq del: filter.simps read_prop.simps elements.simps)
  have ne: "Inr (VRef (length st + 1)) \<noteq> (Inr d :: js_exn + val)"
    using d by simp
  have fresh: "VRef (length st) \<noteq> read_prop st (read_prop st d ''data'') ''data''"
    using arr by simp
  show ?thesis
    unfolding g using ne fresh by (simp add: nth_append del: filter.simps)
qed

theorem getStockChart_store_fresh_envelope_witness:
  "truthy_v (read_prop (chart_store (VBool True)) (VRef 0) ''success'') \<and>
   elements (chart_store (VBool True))
     (read_prop (chart_store (VBool True))
        (read_prop (chart_store (VBool True)) (VRef 0) ''data'') ''data'') =
     Some [VRef 3, VRef 4] \<and>
   \<not> nullish_v (VRef 3) \<and>
   (case getStockChart_store (chart_store (VBool True)) (Inr (VRef 0)) of
      (result, console, st') \<Rightarrow>
        result = Inr (VRef 6) \<and> take 5 st' = chart_store (VBool True) \<and> length st' = 8 \<and>
        elements st' (VRef 5) = Some [VRef 3] \<and> console = [VRef 4])"
proof -
  have a: "truthy_v (read_prop (chart_store (VBool True)) (VRef 0) ''success'')"
    by (simp add: chart_store_def)
  have b: "elements (chart_store (VBool True))
     (read_prop (chart_store (VBool True))
        (read_prop (chart_store (VBool True)) (VRef 0) ''data'') ''data'') =
     Some [VRef 3, VRef 4]"
    by (simp add: chart_store_def)
  have c: "\<not> nullish_v (VRef 3)"
    by simp
  have v: "isValid_v (chart_store (VBool True)) (VRef 3)"
    "\<not> isValid_v (chart_store (VBool True)) (VRef 4)"
    by (simp_all add: isValid_v_def chart_store_def point_fields_def)
  have l: "length (chart_store (VBool True)) = 5"
    by (simp add: chart_store_def)
  show ?thesis
    using a b c v l getStockChart_store_fresh_envelope [OF a b c]
    by (auto split: prod.splits)
qed

text \<open>
  C9, as it is written, asks only for a non-empty inner array. With a falsy \<open>success\<close>
  the call returns the reference it received, not a new envelope, and the inner array of
  that response still holds the ill-typed second point.
\<close>

theorem getStockChart_store_returns_raw_counterexample:
  "getStockChart_store (chart_store (VBool False)) (Inr (VRef 0)) =
     (Inr (VRef 0), [], chart_store (VBool False)) \<and>
   elements (chart_store (VBool False))
     (read_prop (chart_store (VBool False))
        (read_prop (chart_store (VBool False)) (VRef 0) ''data'') ''data'') =
     Some [VRef 3, VRef 4] \<and>
   \<not> isValid_v (chart_store (VBool False)) (VRef 4)"
  by (simp add: getStockChart_store_def chart_store_def keys_v_def isValid_v_def point_fields_def)

text \<open>
  The two models agree: in a store whose references all point into it, the value-level
  \<open>getStockChart\<close> applied to the response read back as a tree gives the store-level
  result read back as a tree, and the same warnings.
\<close>

lemma get_prop_reify: "get_prop (reify (Suc n) st v) k = reify n st (read_prop st v k)"
proof (cases v)
  case (VRef a)
  show ?thesis
  proof (cases "a < length st")
    case True
    show ?thesis
    proof (cases "st ! a")
      case (Obj kvs)
      have "map_of (map (\<lambda>(k, v). (k, reify n st v)) kvs) k = map_option (reify n st) (map_of kvs k)"
        by (simp add: map_of_map)
      with VRef True Obj show ?thesis by (simp split: option.splits)
    next
      case (Arr xs)
      with VRef True show ?thesis by simp
    qed
  next
    case False
    with VRef show ?thesis by simp
  qed
qed simp_all

lemma truthy_reify: "ref_ok st v \<Longrightarrow> truthy (reify (Suc n) st v) = truthy_v v"
  by (cases v) (simp_all split: obj.splits)

lemma nullish_reify: "ref_ok st v \<Longrightarrow> nullish (reify (Suc n) st v) = nullish_v v"
  by (cases v) (simp_all split: obj.splits)

lemma typeof_reify_string: "(typeof (reify n st v) = ''string'') = (typeof_v v = ''string'')"
  by (cases v; cases n) (simp_all split: obj.splits)

lemma typeof_reify_number: "(typeof (reify n st v) = ''number'') = (typeof_v v = ''number'')"
  by (cases v; cases n) (simp_all split: obj.splits)

lemma isValid_reify: "ref_ok st p \<Longrightarrow> isValid (reify (Suc n) st p) = isValid_v st p"
  by (simp add: isValid_def isValid_v_def get_prop_reify truthy_reify typeof_reify_string
      typeof_reify_number del: reify.simps)

lemma wf_nth: "wf_store st \<Longrightarrow> a < length st \<Longrightarrow> obj_ok st (st ! a)"
  by (simp add: wf_store_def list_all_length)

lemma ref_ok_read: "wf_store st \<Longrightarrow> ref_ok st (read_prop st v k)"
proof (cases v)
  case (VRef a)
  assume wf: "wf_store st"
  show ?thesis
  proof (cases "a < length st")
    case True
    from wf_nth [OF wf True] VRef True show ?thesis
      by (fastforce split: obj.splits option.splits simp: list_all_iff dest!: map_of_SomeD)
  next
    case False
    with VRef show ?thesis by simp
  qed
qed simp_all

lemma ref_ok_elements: "wf_store st \<Longrightarrow> elements st v = Some xs \<Longrightarrow> list_all (ref_ok st) xs"
proof -
  assume wf: "wf_store st" and e: "elements st v = Some xs"
  from elements_ref [OF e] obtain a where a: "v = VRef a" "a < length st" "st ! a = Arr xs" by blast
  from wf_nth [OF wf a(2)] a(3) show ?thesis by simp
qed

lemma reify_append: "wf_store st \<Longrightarrow> ref_ok st v \<Longrightarrow> reify n (st @ new) v = reify n st v"
proof (induction n arbitrary: v)
  case 0
  then show ?case by (cases v) simp_all
next
  case (Suc n)
  show ?case
  proof (cases v)
    case (VRef a)
    with Suc.prems have a: "a < length st" by simp
    from wf_nth [OF Suc.prems(1) a] have ok: "obj_ok st (st ! a)" .
    show ?thesis
    proof (cases "st ! a")
      case (Obj kvs)
      with ok have "\<forall>kv \<in> set kvs. ref_ok st (snd kv)" by (simp add: list_all_iff)
      then have "map (\<lambda>(k, v). (k, reify n (st @ new) v)) kvs = map (\<lambda>(k, v). (k, reify n st v)) kvs"
        using Suc.IH [OF Suc.prems(1)] by (auto intro!: map_cong)
      with VRef a Obj show ?thesis by (simp add: nth_append)
    next
      case (Arr xs)
      with ok have "\<forall>x \<in> set xs. ref_ok st x" by (simp add: list_all_iff)
      then have "map (reify n (st @ new)) xs = map (reify n st) xs"
        using Suc.IH [OF Suc.prems(1)] by (auto intro!: map_cong)
      with VRef a Arr show ?thesis by (simp add: nth_append)
    qed
  qed simp_all
qed

lemma reify_elements:
  "elements st v = Some xs \<Longrightarrow> reify (Suc n) st v = JArr (map (reify n st) xs)"
  by (cases v) (auto split: if_splits obj.splits)

lemma reify_not_elements:
  "elements st v = None \<Longrightarrow> \<not> isArray (reify m st v)"
  by (cases v; cases m) (auto split: if_splits obj.splits)

lemma filter_reify:
  assumes "list_all (ref_ok st) xs"
  shows "filter isValid (map (reify (Suc n) st) xs) = map (reify (Suc n) st) (filter (isValid_v st) xs)"
    and "filter (\<lambda>p. \<not> isValid p) (map (reify (Suc n) st) xs) =
         map (reify (Suc n) st) (filter (\<lambda>p. \<not> isValid_v st p) xs)"
  using assms by (induction xs) (simp_all add: isValid_reify del: reify.simps)

lemma map_reify_append:
  "wf_store st \<Longrightarrow> list_all (ref_ok st) xs \<Longrightarrow> map (reify n (st @ new)) xs = map (reify n st) xs"
  by (induction xs) (simp_all add: reify_append del: reify.simps)

theorem getStockChart_store_reads_as_getStockChart:
  assumes wf: "wf_store st" and d: "ref_ok st d"
  shows "(case getStockChart_store st (Inr d) of
      (result, console, st') \<Rightarrow>
        getStockChart (Inr (reify (n + 4) st d)) =
          (map_sum id (reify (n + 4) st') result, map (reify (n + 1) st) console))"
proof -
  let ?D = "reify (Suc (Suc (Suc (Suc n)))) st d"
  let ?inner = "read_prop st (read_prop st d ''data'') ''data''"
  have N: "n + 4 = Suc (Suc (Suc (Suc n)))" "n + 1 = Suc n" by simp_all
  have nul: "nullish ?D = nullish_v d"
    by (rule nullish_reify [OF d])
  have td: "truthy ?D = truthy_v d"
    by (rule truthy_reify [OF d])
  have ts: "truthy (get_prop ?D k) = truthy_v (read_prop st d k)" for k
    by (simp add: get_prop_reify truthy_reify ref_ok_read [OF wf] del: reify.simps)
  have ti: "truthy (get_prop (get_prop ?D ''data'') ''data'') = truthy_v ?inner"
    by (simp add: get_prop_reify truthy_reify ref_ok_read [OF wf] del: reify.simps)
  have gi: "get_prop (get_prop ?D ''data'') ''data'' = reify (Suc (Suc n)) st ?inner"
    by (simp add: get_prop_reify del: reify.simps)
  show ?thesis
  proof (cases "nullish_v d")
    case True
    then show ?thesis
      using nul by (simp add: N getStockChart_def getStockChart_store_def Object_keys_def keys_v_def
          del: reify.simps)
  next
    case nn: False
    show ?thesis
    proof (cases "truthy_v d \<and> truthy_v (read_prop st d ''success'') \<and>
        truthy_v (read_prop st d ''data'') \<and> truthy_v ?inner")
      case False
      then show ?thesis
        using nn nul td ts ti
        by (auto simp: N getStockChart_def getStockChart_store_def Object_keys_def keys_v_def
            simp del: reify.simps)
    next
      case c: True
      show ?thesis
      proof (cases "elements st ?inner")
        case None
        from reify_not_elements [OF None, of "Suc (Suc n)"]
        have "(case reify (Suc (Suc n)) st ?inner of
                 JArr (first # rest) \<Rightarrow> X first rest | _ \<Rightarrow> Y) = Y" for X and Y :: "(js_exn + json) \<times> json list"
          by (cases "reify (Suc (Suc n)) st ?inner") simp_all
        then show ?thesis
          using nn nul td ts ti gi c None
          by (simp add: N getStockChart_def getStockChart_store_def Object_keys_def keys_v_def
              del: reify.simps)
      next
        case (Some xs)
        have ri: "reify (Suc (Suc n)) st ?inner = JArr (map (reify (Suc n) st) xs)"
          by (rule reify_elements [OF Some])
        have ok: "list_all (ref_ok st) xs"
          by (rule ref_ok_elements [OF wf Some])
        show ?thesis
        proof (cases xs)
          case Nil
          then show ?thesis
            using nn nul td ts ti gi c Some ri
            by (simp add: N getStockChart_def getStockChart_store_def Object_keys_def keys_v_def
                del: reify.simps)
        next
          case (Cons first rest)
          then have fok: "ref_ok st first" using ok by simp
          have fn: "nullish (reify (Suc n) st first) = nullish_v first"
            by (rule nullish_reify [OF fok])
          show ?thesis
          proof (cases "nullish_v first")
            case True
            then show ?thesis
              using nn nul td ts ti gi c Some ri Cons fn
              by (simp add: N getStockChart_def getStockChart_store_def Object_keys_def keys_v_def
                  del: reify.simps)
          next
            case False
            let ?v = "filter (isValid_v st) xs"
            let ?new = "[Arr ?v,
                 Obj [(''success'', read_prop st d ''success''),
                      (''data'', VRef (length st + 2)),
                      (''message'', read_prop st d ''message''),
                      (''timestamp'', read_prop st d ''timestamp'')],
                 Obj [(''symbol'', read_prop st (read_prop st d ''data'') ''symbol''),
                      (''period'', read_prop st (read_prop st d ''data'') ''period''),
                      (''interval'', read_prop st (read_prop st d ''data'') ''interval''),
                      (''data'', VRef (length st))]]"
            have store: "getStockChart_store st (Inr d) =
                (Inr (VRef (length st + 1)), filter (\<lambda>p. \<not> isValid_v st p) xs, st @ ?new)"
              using nn c Some Cons False
              by (simp add: getStockChart_store_def keys_v_def filter_vals_eq
                  del: filter.simps read_prop.simps elements.simps)
            have pure: "getStockChart (Inr ?D) =
                (Inr (newResponse ?D (map (reify (Suc n) st) ?v)),
                 map (reify (Suc n) st) (filter (\<lambda>p. \<not> isValid_v st p) xs))"
              using nn nul td ts ti gi c ri Cons fn False filter_reify [OF ok, of n]
              by (simp add: getStockChart_def Object_keys_def filter_points_eq
                  del: reify.simps filter.simps)
            have vok: "list_all (ref_ok st) ?v"
              using ok by (simp add: list_all_iff)
            have ra: "reify m (st @ new) (read_prop st w k) = reify m st (read_prop st w k)"
              for m w k new
              by (rule reify_append [OF wf ref_ok_read [OF wf]])
            have rv: "map (reify (Suc n) (st @ new)) ?v = map (reify (Suc n) st) ?v" for new
              by (rule map_reify_append [OF wf vok])
            have res: "reify (Suc (Suc (Suc (Suc n)))) (st @ ?new) (VRef (length st + 1)) =
                newResponse ?D (map (reify (Suc n) st) ?v)"
              by (simp add: newResponse_def nth_append ra rv get_prop_reify
                  del: filter.simps read_prop.simps reify.simps(1-6))
            show ?thesis
              using res by (simp add: N store pure del: filter.simps reify.simps)
          qed
        qed
      qed
    qed
  qed
qed

section \<open>The index cache of \<open>TopStocksGrid\<close>\<close>

text \<open>
  The component keeps, per index name, an entry \<open>{data, timestamp, loading}\<close> in its state
  \<open>cache\<close>, beside \<open>topStocks\<close>, \<open>loading\<close>, \<open>error\<close>, \<open>selectedIndex\<close> and \<open>lastUpdated\<close>
  (\<open>grid_loading\<close> and \<open>grid_error\<close> below). Times are milliseconds. The list a
  response carries is taken to be an array, as its type \<open>TopStock[]\<close> says. When the error
  message contains \<open>timeout\<close> the component shows a fixed notice in Korean instead of the
  message: \<open>TimeoutNotice\<close>.

  \<open>in_flight\<close> is not a variable of the component: it records the network calls that have
  been issued and have not settled yet, oldest first, and is what the claims on network
  calls are about.
\<close>

record 't CacheData =
  data :: "'t list"
  timestamp :: int
  loading :: bool

datatype grid_error = Message string | TimeoutNotice

datatype 't fetch_outcome = Rejected js_exn | Resolved bool "'t list"

record 't Grid =
  topStocks :: "'t list"
  grid_loading :: bool
  grid_error :: "grid_error option"
  selectedIndex :: string
  lastUpdated :: "int option"
  cache :: "string \<Rightarrow> 't CacheData option"
  in_flight :: "string list"

definition CACHE_DURATION :: int where
  "CACHE_DURATION = 5 * 60 * 1000"

text \<open>\<^verbatim>\<open>(Date.now() - cacheData.timestamp.getTime()) < CACHE_DURATION\<close>\<close>

definition isCacheValid :: "int \<Rightarrow> 't CacheData \<Rightarrow> bool" where
  "isCacheValid now cacheData = (now - timestamp cacheData < CACHE_DURATION)"

text \<open>
  \<open>fetchStocks\<close> is asynchronous. Up to its \<open>await\<close> it sets \<open>loading\<close>, clears \<open>error\<close> and
  issues the network call (\<open>fetchStocks_call\<close>); when the call settles, the rest runs
  (\<open>fetchStocks_settle\<close>):
  \<^verbatim>\<open>
  if (response.success) {
    setTopStocks(stockData); setLastUpdated(new Date());
    setCache(prev => ({...prev, [indexName]: {data: stockData, timestamp: new Date(), loading: false}}));
  } else { setError('Failed to fetch stocks'); }
  } catch (err) {
    const errorMessage = err instanceof Error ? err.message : 'Failed to fetch stocks';
    setError(errorMessage);
    if (errorMessage.includes('timeout')) { setError(<the notice>); }
  } finally { setLoading(false); }
  \<close>
\<close>

definition fetchStocks_call :: "string \<Rightarrow> 't Grid \<Rightarrow> 't Grid" where
  "fetchStocks_call indexName s =
     s\<lparr>grid_loading := True, grid_error := None, in_flight := in_flight s @ [indexName]\<rparr>"

definition fetchStocks_settle ::
  "string \<Rightarrow> 't fetch_outcome \<Rightarrow> int \<Rightarrow> 't Grid \<Rightarrow> 't Grid" where
  "fetchStocks_settle indexName outcome now s =
     (case outcome of
        Resolved success stockData \<Rightarrow>
          if success
          then s\<lparr>topStocks := stockData, lastUpdated := Some now,
                 cache := (cache s)(indexName \<mapsto>
                   \<lparr>data = stockData, timestamp = now, loading = False\<rparr>),
                 grid_loading := False, in_flight := remove1 indexName (in_flight s)\<rparr>
          else s\<lparr>grid_error := Some (Message ''Failed to fetch stocks''),
                 grid_loading := False, in_flight := remove1 indexName (in_flight s)\<rparr>
      | Rejected err \<Rightarrow>
          s\<lparr>grid_error :=
               Some (let errorMessage =
                           (case err of ErrorObject m \<Rightarrow> m
                            | NonError \<Rightarrow> ''Failed to fetch stocks'')
                     in if includes_str errorMessage ''timeout'' then TimeoutNotice
                        else Message errorMessage),
            grid_loading := False, in_flight := remove1 indexName (in_flight s)\<rparr>)"

text \<open>
  \<^verbatim>\<open>
  setSelectedIndex(indexName); setError(null);
  const cachedData = cache[indexName];
  if (cachedData && isCacheValid(cachedData)) {
    setTopStocks(cachedData.data); setLastUpdated(cachedData.timestamp); setLoading(false);
  } else {
    setCache(prev => ({...prev, [indexName]: {data: [], timestamp: new Date(), loading: true}}));
    await fetchStocks(indexName);
  }
  \<close>
  A handler runs on the state of the latest render, which is the state the previous
  handler left: React renders between two events.
\<close>

definition cache_hit :: "'t Grid \<Rightarrow> string \<Rightarrow> int \<Rightarrow> bool" where
  "cache_hit s indexName now =
     (case cache s indexName of
        Some cachedData \<Rightarrow> isCacheValid now cachedData
      | None \<Rightarrow> False)"

definition handleIndexChange :: "string \<Rightarrow> int \<Rightarrow> 't Grid \<Rightarrow> 't Grid" where
  "handleIndexChange indexName now s =
     (case cache s indexName of
        Some cachedData \<Rightarrow>
          if isCacheValid now cachedData
          then s\<lparr>selectedIndex := indexName, grid_error := None,
                 topStocks := data cachedData, lastUpdated := Some (timestamp cachedData),
                 grid_loading := False\<rparr>
          else fetchStocks_call indexName
                 (s\<lparr>selectedIndex := indexName, grid_error := None,
                    cache := (cache s)(indexName \<mapsto>
                      \<lparr>data = [], timestamp = now, loading = True\<rparr>)\<rparr>)
      | None \<Rightarrow>
          fetchStocks_call indexName
            (s\<lparr>selectedIndex := indexName, grid_error := None,
               cache := (cache s)(indexName \<mapsto>
                 \<lparr>data = [], timestamp = now, loading = True\<rparr>)\<rparr>))"

text \<open>\<^verbatim>\<open>await fetchStocks(selectedIndex);\<close> and nothing else.\<close>

definition handleManualRefresh :: "'t Grid \<Rightarrow> 't Grid" where
  "handleManualRefresh s = fetchStocks_call (selectedIndex s) s"

text \<open>
  \<^verbatim>\<open>const isLoading = loading || (currentCacheData?.loading ?? false);\<close>
  While \<open>isLoading\<close> holds the component renders the index buttons only; otherwise it also
  renders the refresh button.
\<close>

definition isLoading :: "'t Grid \<Rightarrow> bool" where
  "isLoading s =
     (grid_loading s \<or>
      (case cache s (selectedIndex s) of Some c \<Rightarrow> loading c | None \<Rightarrow> False))"

text \<open>
  What can happen to a mounted component: the mount effect (\<open>handleIndexChange('all')\<close>), a
  click on an index button, a click on the refresh button where it is rendered, and the
  settling of a network call that is in flight. An event that cannot happen gives \<open>None\<close>.
\<close>

datatype 't event =
    Mount int
  | ClickIndex string int
  | ClickRefresh
  | Settle string "'t fetch_outcome" int

fun step :: "'t event \<Rightarrow> 't Grid \<Rightarrow> 't Grid option" where
  "step (Mount now) s = Some (handleIndexChange ''all'' now s)"
| "step (ClickIndex k now) s = Some (handleIndexChange k now s)"
| "step ClickRefresh s = (if isLoading s then None else Some (handleManualRefresh s))"
| "step (Settle k outcome now) s =
     (if k \<in> set (in_flight s) then Some (fetchStocks_settle k outcome now s) else None)"

fun run :: "'t event list \<Rightarrow> 't Grid \<Rightarrow> 't Grid option" where
  "run [] s = Some s"
| "run (e # es) s = (case step e s of None \<Rightarrow> None | Some s' \<Rightarrow> run es s')"

text \<open>The state before the mount effect, and what a run of events from it leaves.\<close>

definition mounted :: "string Grid" where
  "mounted =
     \<lparr>topStocks = [], grid_loading = False, grid_error = None, selectedIndex = ''all'',
      lastUpdated = None, cache = Map.empty, in_flight = []\<rparr>"

definition outstanding :: "string event list \<Rightarrow> string list option" where
  "outstanding evs = map_option in_flight (run evs mounted)"

definition cached_after :: "string event list \<Rightarrow> string \<Rightarrow> string CacheData option" where
  "cached_after evs k = (case run evs mounted of Some s \<Rightarrow> cache s k | None \<Rightarrow> None)"

definition error_after :: "string event list \<Rightarrow> grid_error option" where
  "error_after evs = (case run evs mounted of Some s \<Rightarrow> grid_error s | None \<Rightarrow> None)"

text \<open>
  Two runs. In the first the list arrives, the user refreshes, clicks the selected index
  again while the refresh is in flight (a cache hit, which clears \<open>loading\<close> and brings the
  refresh button back) and refreshes again. In the second the list arrives, the entry
  expires, the user clicks the index again and the refetch fails.
\<close>

definition stacked_refresh :: "string event list" where
  "stacked_refresh =
     [Mount 0, Settle ''all'' (Resolved True [''AAPL'']) 100, ClickRefresh,
      ClickIndex ''all'' 200, ClickRefresh]"

definition failed_refetch :: "string event list" where
  "failed_refetch =
     [Mount 0, Settle ''all'' (Resolved True [''AAPL'']) 100, ClickIndex ''all'' 400000,
      Settle ''all'' (Rejected (ErrorObject ''Network Error'')) 400100]"

lemmas grid_defs = handleIndexChange_def handleManualRefresh_def fetchStocks_call_def
  fetchStocks_settle_def isLoading_def isCacheValid_def CACHE_DURATION_def cache_hit_def

text \<open>
  C3 (as the code has it). An index change for \<open>k\<close> issues no network call if and only if
  an entry for \<open>k\<close> exists whose age \<open>now - timestamp\<close> is strictly less than
  \<open>CACHE_DURATION\<close>; otherwise it issues exactly one. The \<open>loading\<close> flag of the entry is
  not consulted.
\<close>

theorem index_change_fetches_iff_stale:
  "(in_flight (handleIndexChange k now s) = in_flight s) =
     (\<exists>c. cache s k = Some c \<and> now - timestamp c < CACHE_DURATION) \<and>
   in_flight (handleIndexChange k now s) =
     (if cache_hit s k now then in_flight s else in_flight s @ [k])"
  by (auto simp: handleIndexChange_def fetchStocks_call_def isCacheValid_def cache_hit_def
      split: option.splits)

text \<open>
  C3, as it is written, wants an entry that is not ready to let the network call
  through. After the mount the entry for \<open>all\<close> is the loading placeholder and one call is
  in flight; a click on \<open>all\<close> one second later issues no call.
\<close>

theorem loading_placeholder_suppresses_fetch_counterexample:
  "cached_after [Mount 0] ''all'' = Some \<lparr>data = [], timestamp = 0, loading = True\<rparr> \<and>
   outstanding [Mount 0] = Some [''all''] \<and>
   outstanding [Mount 0, ClickIndex ''all'' 1000] = Some [''all'']"
  by (simp add: cached_after_def outstanding_def mounted_def grid_defs)

text \<open>
  C2 (as the code has it). The component keeps no record of the calls in flight. An index
  change for \<open>k\<close> that misses the cache issues one call and leaves a loading placeholder; a
  second index change for \<open>k\<close> less than \<open>CACHE_DURATION\<close> later hits the placeholder: it
  issues no call, shows the placeholder's empty list and the loading view, and the list
  arrives with the one call when it settles. A manual refresh always issues a call for the
  selected index, whatever is in flight.
\<close>

theorem second_index_change_starts_no_fetch:
  assumes "\<not> cache_hit s k earlier" and "later - earlier < CACHE_DURATION"
  shows "in_flight (handleIndexChange k later (handleIndexChange k earlier s)) = in_flight s @ [k] \<and>
    topStocks (handleIndexChange k later (handleIndexChange k earlier s)) = [] \<and>
    isLoading (handleIndexChange k later (handleIndexChange k earlier s)) \<and>
    topStocks (fetchStocks_settle k (Resolved True xs) settled s'') = xs \<and>
    in_flight (handleManualRefresh s') = in_flight s' @ [selectedIndex s']"
  using assms
  by (auto simp: grid_defs split: option.splits)

theorem second_index_change_starts_no_fetch_witness:
  "\<not> cache_hit mounted ''all'' 0 \<and> (1000::int) - 0 < CACHE_DURATION \<and>
   in_flight (handleIndexChange ''all'' 1000 (handleIndexChange ''all'' 0 mounted)) = [''all''] \<and>
   in_flight (handleManualRefresh (handleIndexChange ''all'' 0 mounted)) = [''all'', ''all'']"
proof -
  have a: "\<not> cache_hit mounted ''all'' 0"
    by (simp add: cache_hit_def mounted_def)
  have b: "(1000::int) - 0 < CACHE_DURATION"
    by (simp add: CACHE_DURATION_def)
  have c: "in_flight mounted = []"
    "selectedIndex (handleIndexChange ''all'' 0 mounted) = ''all''"
    "in_flight (handleIndexChange ''all'' 0 mounted) = [''all'']"
    by (simp_all add: mounted_def handleIndexChange_def fetchStocks_call_def)
  show ?thesis
    using a b c
      second_index_change_starts_no_fetch [OF a b,
        where s' = "handleIndexChange ''all'' 0 mounted" and xs = "[''AAPL'']" and settled = 100
          and s'' = mounted]
    by simp
qed

text \<open>
  C2, as it is written, allows one outstanding call per key. At the end of the first
  run two calls for \<open>all\<close> are in flight, both issued by the refresh button.
\<close>

theorem manual_refresh_stacks_counterexample:
  "outstanding stacked_refresh = Some [''all'', ''all'']"
  by (simp add: outstanding_def stacked_refresh_def mounted_def grid_defs)

text \<open>
  C4 (as the code has it). An entry has no error state. A manual refresh does not touch the
  cache when it starts, and when its fetch fails (a rejection, or a response whose
  \<open>success\<close> is false) the error of the component is set, \<open>loading\<close> is cleared and the
  cache is as it was before the refresh: the payload and timestamp of the entry are kept.
  An index change that misses the cache (no entry, or an expired one) replaces the entry by
  an empty loading placeholder stamped \<open>now\<close> before its fetch is issued.
\<close>

theorem failed_manual_refresh_keeps_cache:
  "cache (fetchStocks_settle (selectedIndex s) (Rejected err) now (handleManualRefresh s)) =
     cache s \<and>
   grid_error (fetchStocks_settle (selectedIndex s) (Rejected err) now (handleManualRefresh s))
     \<noteq> None \<and>
   \<not> grid_loading
     (fetchStocks_settle (selectedIndex s) (Rejected err) now (handleManualRefresh s)) \<and>
   cache (fetchStocks_settle (selectedIndex s) (Resolved False xs) now (handleManualRefresh s)) =
     cache s \<and>
   grid_error
     (fetchStocks_settle (selectedIndex s) (Resolved False xs) now (handleManualRefresh s)) =
     Some (Message ''Failed to fetch stocks'') \<and>
   \<not> grid_loading
     (fetchStocks_settle (selectedIndex s) (Resolved False xs) now (handleManualRefresh s)) \<and>
   cache (handleIndexChange k now s) k =
     (if cache_hit s k now then cache s k
      else Some \<lparr>data = [], timestamp = now, loading = True\<rparr>)"
  by (auto simp: grid_defs split: option.splits js_exn.splits)

text \<open>
  C4, as it is written, keeps the last good payload through a failed refetch. In the
  second run the entry for \<open>all\<close> holds the fetched list, and after the failed refetch it
  is the empty loading placeholder.
\<close>

theorem refetch_destroys_payload_counterexample:
  "cached_after [Mount 0, Settle ''all'' (Resolved True [''AAPL'']) 100] ''all'' =
     Some \<lparr>data = [''AAPL''], timestamp = 100, loading = False\<rparr> \<and>
   cached_after failed_refetch ''all'' =
     Some \<lparr>data = [], timestamp = 400000, loading = True\<rparr> \<and>
   error_after failed_refetch = Some (Message ''Network Error'')"
  by (simp add: cached_after_def error_after_def failed_refetch_def mounted_def grid_defs)

end
